theory Spec2Isabelle
  imports Complex_Main "HOL-Library.List_Lexorder"
begin

section \<open>Strings\<close>

text \<open>
  A JavaScript string is a sequence of UTF-16 code units. Regular expressions without the
  \<open>u\<close> flag, \<open>trim\<close>, \<open>split\<close>, \<open>length\<close> and the relational operators all work on
  code units, so a string is modelled as the list of its code units, each a natural number
  below \<open>65536\<close>. \<open>S\<close> turns an ASCII literal into such a string.
\<close>

type_synonym jsstring = "nat list"

definition S :: "string \<Rightarrow> jsstring" where
  "S s = map of_char s"

text \<open>
  The ECMAScript \<open>WhiteSpace\<close> and \<open>LineTerminator\<close> code points: what \<open>trim\<close> strips and
  what \<open>\\s\<close> matches.
\<close>

definition is_ws :: "nat \<Rightarrow> bool" where
  "is_ws c = (c = 9 \<or> c = 10 \<or> c = 11 \<or> c = 12 \<or> c = 13 \<or> c = 32 \<or> c = 160 \<or>
              c = 0x1680 \<or> (0x2000 \<le> c \<and> c \<le> 0x200A) \<or> c = 0x2028 \<or> c = 0x2029 \<or>
              c = 0x202F \<or> c = 0x205F \<or> c = 0x3000 \<or> c = 0xFEFF)"

text \<open>The line terminators, which \<open>.\<close> does not match.\<close>

definition is_line_terminator :: "nat \<Rightarrow> bool" where
  "is_line_terminator c = (c = 10 \<or> c = 13 \<or> c = 0x2028 \<or> c = 0x2029)"

definition trimStart :: "jsstring \<Rightarrow> jsstring" where
  "trimStart s = dropWhile is_ws s"

definition trimEnd :: "jsstring \<Rightarrow> jsstring" where
  "trimEnd s = rev (dropWhile is_ws (rev s))"

definition trim :: "jsstring \<Rightarrow> jsstring" where
  "trim s = trimEnd (trimStart s)"

fun startsWith :: "jsstring \<Rightarrow> jsstring \<Rightarrow> bool" where
  "startsWith s [] = True"
| "startsWith [] (p # ps) = False"
| "startsWith (c # cs) (p # ps) = (c = p \<and> startsWith cs ps)"

definition endsWith :: "jsstring \<Rightarrow> jsstring \<Rightarrow> bool" where
  "endsWith s p = startsWith (rev s) (rev p)"

section \<open>Regular expressions\<close>

text \<open>
  The regular expressions of the source are sequences of these items: a character class,
  a quantified character class (greedy or lazy, with a minimum and an optional maximum),
  the parentheses of the capture group, and the anchors \<open>^\<close> and \<open>$\<close>. The source uses no
  alternation, no nested quantifier and at most one capture group per expression.
\<close>

datatype item =
    Chr "nat \<Rightarrow> bool"
  | Rep bool nat "nat option" "nat \<Rightarrow> bool"
  | GOpen
  | GClose
  | Bos
  | Eos

definition lit :: "nat \<Rightarrow> item" where
  "lit c = Chr (\<lambda>x. x = c)"

definition lits :: "string \<Rightarrow> item list" where
  "lits s = map lit (S s)"

definition any_char :: "nat \<Rightarrow> bool" where
  "any_char c = True"

definition dot :: "nat \<Rightarrow> bool" where
  "dot c = (\<not> is_line_terminator c)"

definition dec_max :: "nat option \<Rightarrow> nat option" where
  "dec_max mx = (case mx of None \<Rightarrow> None | Some m \<Rightarrow> Some (m - 1))"

text \<open>
  The backtracking matcher of ECMAScript, at one position. \<open>matchHere r s pos gs g\<close> matches
  the items \<open>r\<close> against the rest \<open>s\<close> of the subject, whose first code unit has index
  \<open>pos\<close> in the subject; \<open>gs\<close> is the index where the capture group was opened and \<open>g\<close> the
  span of the group once closed. It returns the index after the match and the group's span.
  A greedy quantifier tries one more repetition before the rest of the expression, a lazy
  one the rest of the expression first.
\<close>

fun matchHere :: "item list \<Rightarrow> jsstring \<Rightarrow> nat \<Rightarrow> nat option \<Rightarrow> (nat \<times> nat) option
    \<Rightarrow> (nat \<times> (nat \<times> nat) option) option" where
  "matchHere [] s pos gs g = Some (pos, g)"
| "matchHere (Bos # r) s pos gs g = (if pos = 0 then matchHere r s pos gs g else None)"
| "matchHere (Eos # r) s pos gs g = (if s = [] then matchHere r s pos gs g else None)"
| "matchHere (GOpen # r) s pos gs g = matchHere r s pos (Some pos) g"
| "matchHere (GClose # r) s pos gs g =
     matchHere r s pos gs (case gs of None \<Rightarrow> g | Some a \<Rightarrow> Some (a, pos))"
| "matchHere (Chr p # r) [] pos gs g = None"
| "matchHere (Chr p # r) (c # t) pos gs g =
     (if p c then matchHere r t (Suc pos) gs g else None)"
| "matchHere (Rep greedy mn mx p # r) [] pos gs g =
     (if 0 < mn then None else matchHere r [] pos gs g)"
| "matchHere (Rep greedy mn mx p # r) (c # t) pos gs g =
     (if 0 < mn then
        (if p c \<and> mx \<noteq> Some 0
         then matchHere (Rep greedy (mn - 1) (dec_max mx) p # r) t (Suc pos) gs g
         else None)
      else if mx = Some 0 then matchHere r (c # t) pos gs g
      else if greedy then
        (case (if p c then matchHere (Rep greedy 0 (dec_max mx) p # r) t (Suc pos) gs g
               else None) of
           Some res \<Rightarrow> Some res
         | None \<Rightarrow> matchHere r (c # t) pos gs g)
      else
        (case matchHere r (c # t) pos gs g of
           Some res \<Rightarrow> Some res
         | None \<Rightarrow>
             (if p c then matchHere (Rep greedy 0 (dec_max mx) p # r) t (Suc pos) gs g
              else None)))"

text \<open>The match at index \<open>pos\<close>, with the group's span read from the rest of the subject.\<close>

record rmatch =
  m_end :: nat
  m_text :: jsstring
  m_group :: "jsstring option"

definition matchAt :: "item list \<Rightarrow> jsstring \<Rightarrow> nat \<Rightarrow> rmatch option" where
  "matchAt r s pos =
     (case matchHere r s pos None None of
        None \<Rightarrow> None
      | Some (e, g) \<Rightarrow>
          Some \<lparr> m_end = e, m_text = take (e - pos) s,
                 m_group = (case g of None \<Rightarrow> None
                            | Some (a, b) \<Rightarrow> Some (take (b - a) (drop (a - pos) s))) \<rparr>)"

text \<open>
  \<open>RegExp.prototype.exec\<close> from index \<open>pos\<close>: the leftmost position where the expression
  matches. It returns the text before the match, the match and the text after it.
\<close>

fun search :: "item list \<Rightarrow> jsstring \<Rightarrow> nat \<Rightarrow> jsstring
    \<Rightarrow> (jsstring \<times> rmatch \<times> jsstring) option" where
  "search r [] pos seen =
     (case matchAt r [] pos of
        None \<Rightarrow> None
      | Some m \<Rightarrow> Some (rev seen, m, []))"
| "search r (c # t) pos seen =
     (case matchAt r (c # t) pos of
        None \<Rightarrow> search r t (Suc pos) (c # seen)
      | Some m \<Rightarrow> Some (rev seen, m, drop (m_end m - pos) (c # t)))"

text \<open>
  \<open>String.prototype.replace\<close> with an expression without the \<open>g\<close> flag: the first match
  is replaced by what \<open>f\<close> makes of the match and its group.
\<close>

definition replaceFirst :: "item list \<Rightarrow> (rmatch \<Rightarrow> jsstring) \<Rightarrow> jsstring \<Rightarrow> jsstring" where
  "replaceFirst r f s =
     (case search r s 0 [] of
        None \<Rightarrow> s
      | Some (pre, m, post) \<Rightarrow> pre @ f m @ post)"

text \<open>
  \<open>String.prototype.replace\<close> with the \<open>g\<close> flag: every match, from left to right, the
  search going on where the last match ended (one code unit further after an empty match).
\<close>

fun replaceAll :: "item list \<Rightarrow> (rmatch \<Rightarrow> jsstring) \<Rightarrow> jsstring \<Rightarrow> nat \<Rightarrow> jsstring" where
  "replaceAll r f [] pos =
     (case matchAt r [] pos of None \<Rightarrow> [] | Some m \<Rightarrow> f m)"
| "replaceAll r f (c # t) pos =
     (case matchAt r (c # t) pos of
        None \<Rightarrow> c # replaceAll r f t (Suc pos)
      | Some m \<Rightarrow>
          (if pos < m_end m
           then f m @ replaceAll r f (drop (m_end m - pos) (c # t)) (m_end m)
           else f m @ c # replaceAll r f t (Suc pos)))"

text \<open>
  \<open>String.prototype.split\<close> with a regular expression. \<open>acc\<close> holds, reversed, the code
  units since the last separator. A match that is empty where the last separator ended
  does not split; the group of the separator, when it has one, is spliced into the result.
\<close>

definition group_list :: "rmatch \<Rightarrow> jsstring list" where
  "group_list m = (case m_group m of None \<Rightarrow> [] | Some g \<Rightarrow> [g])"

fun splitGo :: "item list \<Rightarrow> jsstring \<Rightarrow> nat \<Rightarrow> jsstring \<Rightarrow> jsstring list" where
  "splitGo r [] pos acc = [rev acc]"
| "splitGo r (c # t) pos acc =
     (case matchAt r (c # t) pos of
        None \<Rightarrow> splitGo r t (Suc pos) (c # acc)
      | Some m \<Rightarrow>
          (if pos < m_end m
           then rev acc # group_list m @ splitGo r (drop (m_end m - pos) (c # t)) (m_end m) []
           else if acc = [] then splitGo r t (Suc pos) [c]
           else rev acc # group_list m @ splitGo r t (Suc pos) [c]))"

definition split :: "item list \<Rightarrow> jsstring \<Rightarrow> jsstring list" where
  "split r s =
     (if s = [] then (case matchAt r [] 0 of None \<Rightarrow> [[]] | Some m \<Rightarrow> [])
      else splitGo r s 0 [])"

text \<open>
  The equations of the matcher and of the loops over it are unfolded only where a proof asks
  for them.
\<close>

declare matchHere.simps [simp del] search.simps [simp del] replaceAll.simps [simp del]
  splitGo.simps [simp del]

text \<open>The replacement pattern \<open>$1\<close>, and \<open>replace\<close> with the \<open>g\<close> flag from the start.\<close>

definition group1 :: "rmatch \<Rightarrow> jsstring" where
  "group1 m = (case m_group m of None \<Rightarrow> [] | Some g \<Rightarrow> g)"

definition replace_g :: "item list \<Rightarrow> (rmatch \<Rightarrow> jsstring) \<Rightarrow> jsstring \<Rightarrow> jsstring" where
  "replace_g r f s = replaceAll r f s 0"

section \<open>Buffer: UTF-8 and base64\<close>
















section \<open>posts.ts\<close>

text \<open>
  \<open>Math.ceil(a / b)\<close> on integers. JavaScript numbers are doubles; the counts and page
  numbers of this program are integers far below \<open>2 ^ 53\<close>, where the quotient is rounded by
  less than its distance to the next integer, so the ceiling is the one of the exact
  quotient. Division by zero gives \<open>Infinity\<close> or \<open>NaN\<close>.
\<close>

datatype number = Finite int | Infinity | NaN

definition ceil_div :: "nat \<Rightarrow> int \<Rightarrow> number" where
  "ceil_div a b =
     (if b = 0 then (if a = 0 then NaN else Infinity)
      else Finite \<lceil>real a / real_of_int b\<rceil>)"

definition calculateReadingTime :: "jsstring \<Rightarrow> number" where
  "calculateReadingTime content =
     (let wordsPerMinute = 200;
          words = length (split [Rep True 1 None is_ws] (trim content))
      in ceil_div words wordsPerMinute)"

definition generateExcerpt :: "jsstring \<Rightarrow> jsstring" where
  "generateExcerpt content =
     (let contentWithoutFrontmatter =
            trim (replaceFirst (Bos # lits ''---'' @ [Rep False 0 None any_char] @ lits ''---'')
                    (\<lambda>m. []) content);
          paragraphs = split [lit 10, Rep True 0 None is_ws, lit 10] contentWithoutFrontmatter
      in if length paragraphs = 0 then []
         else
           trim
            (replace_g [Rep True 1 None (\<lambda>c. c = 10)] (\<lambda>m. S '' '')
            (replace_g (lits ''`'' @ [GOpen, Rep False 0 None dot, GClose] @ lits ''`'') group1
            (replace_g (lits ''['' @ [GOpen, Rep False 0 None dot, GClose] @ lits ''](''
                          @ [Rep False 0 None dot] @ lits '')'') group1
            (replace_g (lits ''*'' @ [GOpen, Rep False 0 None dot, GClose] @ lits ''*'') group1
            (replace_g (lits ''**'' @ [GOpen, Rep False 0 None dot, GClose] @ lits ''**'') group1
            (replace_g [Rep True 1 (Some 6) (\<lambda>c. c = 35), Rep True 1 None is_ws] (\<lambda>m. [])
               (paragraphs ! 0))))))))"

text \<open>
  The \<open>Post\<close> interface declares \<open>title\<close> and \<open>date\<close> as strings, but the two fields are
  copied unchecked from the metadata that the front-matter parser returns, and there they
  are whatever YAML value the file gives: a string for a quoted date, a \<open>Date\<close> object for an
  unquoted one, \<open>undefined\<close> when the file names none. These values are the type parameter
  \<open>'v\<close>.
\<close>

record 'v post =
  slug :: jsstring
  title :: 'v
  date :: 'v
  excerpt :: jsstring
  content :: jsstring
  readingTime :: number

text \<open>
  The file system and the front-matter parser \<open>matter\<close> of the gray-matter package are the
  environment of the program: \<open>readdirSync\<close> and \<open>readFileSync\<close> return or throw, and so does
  \<open>matter\<close>, which splits a file into its metadata and its body. Of the metadata the
  program reads \<open>title\<close>, \<open>date\<close> and \<open>excerpt\<close>. The environment also holds \<open>less_than\<close>, the
  operator \<open><\<close> of the language on the values of the metadata: on two strings it compares
  their code units, on two \<open>Date\<close> objects their time values, and with \<open>undefined\<close> on either
  side it is false.
\<close>

datatype error = IoError | ParseError

record 'v front_matter =
  fm_title :: 'v
  fm_date :: 'v
  fm_excerpt :: "jsstring option"

record 'v env =
  cwd :: jsstring
  readdirSync :: "jsstring \<Rightarrow> error + jsstring list"
  readFileSync :: "jsstring \<Rightarrow> error + jsstring"
  matter :: "jsstring \<Rightarrow> error + ('v front_matter \<times> jsstring)"
  less_than :: "'v \<Rightarrow> 'v \<Rightarrow> bool"

text \<open>
  \<open>path.join\<close> of Node on a POSIX system. The arguments that are not empty are joined with
  \<open>/\<close> and the result is normalised: the path is cut into segments at every \<open>/\<close>; an empty
  segment and the segment \<open>.\<close> are dropped; the segment \<open>..\<close> removes the segment kept before
  it, and where there is none to remove it is dropped in an absolute path and kept in a
  relative one; a leading and a trailing \<open>/\<close> are kept; a path that comes out empty is \<open>/\<close>,
  \<open>./\<close> or \<open>.\<close>.
\<close>

fun path_segments :: "jsstring \<Rightarrow> jsstring \<Rightarrow> jsstring list" where
  "path_segments seg [] = [rev seg]"
| "path_segments seg (c # t) =
     (if c = 47 then rev seg # path_segments [] t else path_segments (c # seg) t)"

definition normalizeStep :: "bool \<Rightarrow> jsstring list \<Rightarrow> jsstring \<Rightarrow> jsstring list" where
  "normalizeStep allowAboveRoot res seg =
     (if seg = [] \<or> seg = S ''.'' then res
      else if seg = S ''..'' then
        (if res \<noteq> [] \<and> last res \<noteq> S ''..'' then butlast res
         else if allowAboveRoot then res @ [seg] else res)
      else res @ [seg])"

definition normalizeString :: "jsstring \<Rightarrow> bool \<Rightarrow> jsstring list" where
  "normalizeString path allowAboveRoot =
     foldl (normalizeStep allowAboveRoot) [] (path_segments [] path)"

fun join_segments :: "jsstring list \<Rightarrow> jsstring" where
  "join_segments [] = []"
| "join_segments [x] = x"
| "join_segments (x # y # r) = x @ 47 # join_segments (y # r)"

definition path_normalize :: "jsstring \<Rightarrow> jsstring" where
  "path_normalize path =
     (if path = [] then S ''.''
      else
        (let isAbsolute = (hd path = 47);
             trailingSeparator = (last path = 47);
             normalized = join_segments (normalizeString path (\<not> isAbsolute))
         in if normalized = [] then
              (if isAbsolute then S ''/'' else if trailingSeparator then S ''./'' else S ''.'')
            else (if isAbsolute then S ''/'' else []) @ normalized
                 @ (if trailingSeparator then S ''/'' else [])))"

definition path_join :: "jsstring \<Rightarrow> jsstring \<Rightarrow> jsstring" where
  "path_join a b =
     (let joined = join_segments (filter (\<lambda>arg. arg \<noteq> []) [a, b])
      in if joined = [] then S ''.'' else path_normalize joined)"

definition postsDirectory :: "'v env \<Rightarrow> jsstring" where
  "postsDirectory e = path_join (cwd e) (S ''content/posts'')"

text \<open>\<open>a || b\<close> on an optional string: \<open>undefined\<close> and the empty string are falsy.\<close>

definition or_else :: "jsstring option \<Rightarrow> jsstring \<Rightarrow> jsstring" where
  "or_else a b = (case a of None \<Rightarrow> b | Some v \<Rightarrow> if v = [] then b else v)"

text \<open>The object both \<open>getAllPosts\<close> and \<open>getPostBySlug\<close> build from a parsed file.\<close>

definition makePost :: "jsstring \<Rightarrow> 'v front_matter \<Rightarrow> jsstring \<Rightarrow> 'v post" where
  "makePost sl data body =
     \<lparr> slug = sl, title = fm_title data, date = fm_date data,
       excerpt = or_else (fm_excerpt data) (generateExcerpt body),
       content = body, readingTime = calculateReadingTime body \<rparr>"

definition loadPost :: "'v env \<Rightarrow> jsstring \<Rightarrow> error + 'v post" where
  "loadPost e fileName =
     (let sl = replaceFirst (lits ''.md'' @ [Eos]) (\<lambda>m. []) fileName;
          fullPath = path_join (postsDirectory e) fileName
      in case readFileSync e fullPath of
           Inl err \<Rightarrow> Inl err
         | Inr fileContents \<Rightarrow>
             (case matter e fileContents of
                Inl err \<Rightarrow> Inl err
              | Inr (data, body) \<Rightarrow> Inr (makePost sl data body)))"

text \<open>\<open>Array.prototype.map\<close> with a callback that may throw: the first exception ends it.\<close>

fun map_throwing :: "('a \<Rightarrow> error + 'b) \<Rightarrow> 'a list \<Rightarrow> error + 'b list" where
  "map_throwing f [] = Inr []"
| "map_throwing f (x # xs) =
     (case f x of
        Inl err \<Rightarrow> Inl err
      | Inr y \<Rightarrow> (case map_throwing f xs of Inl err \<Rightarrow> Inl err | Inr ys \<Rightarrow> Inr (y # ys)))"

text \<open>
  \<open>Array.prototype.sort\<close> with a comparison function is a built-in of the engine. It is
  modelled as the insertion sort that V8 runs on short arrays: each element in turn is put
  into the sorted part, before the first element that the comparison function orders after
  it (a negative result).
\<close>

fun sort_insert :: "('a \<Rightarrow> 'a \<Rightarrow> int) \<Rightarrow> 'a \<Rightarrow> 'a list \<Rightarrow> 'a list" where
  "sort_insert cmp x [] = [x]"
| "sort_insert cmp x (y # ys) =
     (if cmp x y < 0 then x # y # ys else y # sort_insert cmp x ys)"

definition array_sort :: "('a \<Rightarrow> 'a \<Rightarrow> int) \<Rightarrow> 'a list \<Rightarrow> 'a list" where
  "array_sort cmp xs = foldl (\<lambda>sorted x. sort_insert cmp x sorted) [] xs"

definition compare_date :: "'v env \<Rightarrow> 'v post \<Rightarrow> 'v post \<Rightarrow> int" where
  "compare_date e a b = (if less_than e (date a) (date b) then 1 else - 1)"

definition getAllPosts :: "'v env \<Rightarrow> error + 'v post list" where
  "getAllPosts e =
     (case readdirSync e (postsDirectory e) of
        Inl err \<Rightarrow> Inl err
      | Inr fileNames \<Rightarrow>
          (case map_throwing (loadPost e) (filter (\<lambda>fileName. endsWith fileName (S ''.md'')) fileNames) of
             Inl err \<Rightarrow> Inl err
           | Inr allPostsData \<Rightarrow> Inr (array_sort (compare_date e) allPostsData)))"

text \<open>
  \<open>Array.prototype.slice\<close>: a negative index counts from the end, and both indices are
  clamped to the array.
\<close>

definition slice :: "'a list \<Rightarrow> int \<Rightarrow> int \<Rightarrow> 'a list" where
  "slice xs start fin =
     (let len = int (length xs);
          k = (if start < 0 then max (len + start) 0 else min start len);
          final = (if fin < 0 then max (len + fin) 0 else min fin len)
      in take (nat (final - k)) (drop (nat k) xs))"

record 'v page_listing =
  posts :: "'v post list"
  totalPosts :: nat
  totalPages :: number
  currentPage :: int
  hasNextPage :: bool
  hasPrevPage :: bool

definition getPostsPage :: "'v env \<Rightarrow> int \<Rightarrow> int \<Rightarrow> error + 'v page_listing" where
  "getPostsPage e page postsPerPage =
     (case getAllPosts e of
        Inl err \<Rightarrow> Inl err
      | Inr allPosts \<Rightarrow>
          (let startIndex = (page - 1) * postsPerPage;
               endIndex = startIndex + postsPerPage
           in Inr \<lparr> posts = slice allPosts startIndex endIndex,
                    totalPosts = length allPosts,
                    totalPages = ceil_div (length allPosts) postsPerPage,
                    currentPage = page,
                    hasNextPage = (endIndex < int (length allPosts)),
                    hasPrevPage = (1 < page) \<rparr>))"

text \<open>
  \<open>getPostBySlug\<close> wraps its body in \<open>try\<close>/\<open>catch\<close>: whatever the body throws becomes the
  result \<open>null\<close>.
\<close>

definition getPostBySlug :: "'v env \<Rightarrow> jsstring \<Rightarrow> error + 'v post option" where
  "getPostBySlug e sl =
     (case (let fullPath = path_join (postsDirectory e) (sl @ S ''.md'')
            in case readFileSync e fullPath of
                 Inl err \<Rightarrow> Inl err
               | Inr fileContents \<Rightarrow>
                   (case matter e fileContents of
                      Inl err \<Rightarrow> Inl err
                    | Inr (data, body) \<Rightarrow> Inr (makePost sl data body))) of
        Inl err \<Rightarrow> Inr None
      | Inr p \<Rightarrow> Inr (Some p))"

section \<open>markdown.ts and BlogPost.tsx\<close>








section \<open>The specification's words\<close>

text \<open>
  The number of whitespace-delimited tokens of a text: the maximal runs of code units that
  are not whitespace. A token starts at a code unit that is not whitespace and follows
  whitespace or the start of the text; \<open>after_ws\<close> says which.
\<close>

fun count_tokens :: "bool \<Rightarrow> jsstring \<Rightarrow> nat" where
  "count_tokens after_ws [] = 0"
| "count_tokens after_ws (c # cs) =
     (if \<not> is_ws c \<and> after_ws then Suc (count_tokens False cs)
      else count_tokens (is_ws c) cs)"

definition token_count :: "jsstring \<Rightarrow> nat" where
  "token_count s = count_tokens True s"

text \<open>
  Reading a text from the left. \<open>up_to p d s\<close> looks for the first place where \<open>d\<close> stands in
  \<open>s\<close>, going over code units that satisfy \<open>p\<close> only: it gives the text before that place
  and the text behind \<open>d\<close>, or nothing when a code unit that does not satisfy \<open>p\<close>, or the
  end of the text, comes first.
\<close>

fun up_to :: "(nat \<Rightarrow> bool) \<Rightarrow> jsstring \<Rightarrow> jsstring \<Rightarrow> (jsstring \<times> jsstring) option" where
  "up_to p d [] = (if d = [] then Some ([], []) else None)"
| "up_to p d (c # t) =
     (if startsWith (c # t) d then Some ([], drop (length d) (c # t))
      else if p c then
        (case up_to p d t of None \<Rightarrow> None | Some (inner, rest) \<Rightarrow> Some (c # inner, rest))
      else None)"






















text \<open>What a page listing holds when the call returned one.\<close>

definition page_posts :: "error + 'v page_listing \<Rightarrow> 'v post list" where
  "page_posts r = (case r of Inl err \<Rightarrow> [] | Inr listing \<Rightarrow> posts listing)"

section \<open>A content directory of ten posts\<close>

text \<open>
  The values of the metadata in the instances below are strings and \<open>undefined\<close>. On two
  strings \<open><\<close> compares the code units from the left, and a proper prefix is less; with
  \<open>undefined\<close> on either side it is false.
\<close>

datatype yaml = Undefined | Text jsstring

fun js_less :: "yaml \<Rightarrow> yaml \<Rightarrow> bool" where
  "js_less (Text a) (Text b) = (a < b)"
| "js_less a b = False"

text \<open>
  A file system with ten posts and a file that is not a post. Its files hold a date, a space
  and a body, and its parser reads them so; a file that starts with a hyphen holds no date.
\<close>

definition demo_files :: "(jsstring \<times> jsstring) list" where
  "demo_files =
     [(S ''p0.md'', S ''2022-07-14 Hooks''), (S ''p1.md'', S ''2022-07-21 Memory''),
      (S ''p2.md'', S ''2022-07-26 Tables''), (S ''p3.md'', S ''2023-04-30 Deploy''),
      (S ''p4.md'', S ''2023-07-30 Unity''), (S ''p5.md'', S ''2024-01-06 Roblox''),
      (S ''p6.md'', S ''2024-07-28 Context''), (S ''p7.md'', S ''2025-03-13 Speccing''),
      (S ''p8.md'', S ''2025-06-11 Pages''), (S ''p9.md'', S ''2025-07-06 Cursor'')]"

definition demo_matter :: "jsstring \<Rightarrow> error + (yaml front_matter \<times> jsstring)" where
  "demo_matter c =
     (if length c < 11 then Inl ParseError
      else Inr (\<lparr> fm_title = Text (drop 11 c),
                 fm_date = (if hd c = 45 then Undefined else Text (take 10 c)),
                 fm_excerpt = None \<rparr>, drop 11 c))"

definition directory :: "(jsstring \<times> jsstring) list \<Rightarrow> yaml env" where
  "directory files =
     \<lparr> cwd = S ''/site'',
       readdirSync = (\<lambda>d. if d = S ''/site/content/posts''
                            then Inr (S ''README.txt'' # map fst files) else Inl IoError),
       readFileSync = (\<lambda>p. case map_of (map (\<lambda>(n, c). (S ''/site/content/posts/'' @ n, c))
                                            files) p of
                              None \<Rightarrow> Inl IoError
                            | Some c \<Rightarrow> Inr c),
       matter = demo_matter,
       less_than = js_less \<rparr>"

definition demo_env :: "yaml env" where
  "demo_env = directory demo_files"

definition demo_post :: "string \<Rightarrow> string \<Rightarrow> string \<Rightarrow> yaml post" where
  "demo_post n d b =
     makePost (S n) \<lparr> fm_title = Text (S b), fm_date = Text (S d), fm_excerpt = None \<rparr> (S b)"

definition demo_posts :: "yaml post list" where
  "demo_posts =
     [demo_post ''p9'' ''2025-07-06'' ''Cursor'', demo_post ''p8'' ''2025-06-11'' ''Pages'',
      demo_post ''p7'' ''2025-03-13'' ''Speccing'', demo_post ''p6'' ''2024-07-28'' ''Context'',
      demo_post ''p5'' ''2024-01-06'' ''Roblox'', demo_post ''p4'' ''2023-07-30'' ''Unity'',
      demo_post ''p3'' ''2023-04-30'' ''Deploy'', demo_post ''p2'' ''2022-07-26'' ''Tables'',
      demo_post ''p1'' ''2022-07-21'' ''Memory'', demo_post ''p0'' ''2022-07-14'' ''Hooks'']"




section \<open>Pagination\<close>

lemma ceil_div_pos: "0 < b \<Longrightarrow> ceil_div a b = Finite (- ((- int a) div b))"
proof -
  assume b: "0 < b"
  have "\<lceil>real a / real_of_int b\<rceil> = \<lceil>of_int (int a) / (of_int b :: real)\<rceil>" by simp
  also have "\<dots> = - ((- int a) div b)" by (rule ceiling_divide_eq_div)
  finally show ?thesis using b by (simp add: ceil_div_def)
qed

lemma slice_window:
  assumes "0 \<le> s" and "0 \<le> n"
  shows "slice xs s (s + n) = take (nat n) (drop (nat s) xs)"
proof (cases "int (length xs) \<le> s")
  case True
  then have "length xs \<le> nat s" by linarith
  then show ?thesis using assms True by (simp add: slice_def Let_def)
next
  case False
  show ?thesis
  proof (cases "s + n \<le> int (length xs)")
    case True
    then show ?thesis using assms False by (simp add: slice_def Let_def min_def)
  next
    case False2: False
    have "length (drop (nat s) xs) \<le> nat n" using False2 assms by auto
    moreover have "length (drop (nat s) xs) \<le> nat (int (length xs) - s)" using assms by auto
    ultimately show ?thesis using assms False False2 by (simp add: slice_def Let_def min_def)
  qed
qed

lemma slice_length: "0 \<le> n \<Longrightarrow> length (slice xs s (s + n)) \<le> nat n"
  by (auto simp: slice_def Let_def min_def max_def)

lemma concat_windows: "concat (map (\<lambda>k. take m (drop (k * m) xs)) [0..<n]) = take (n * m) xs"
proof (induction n)
  case 0
  show ?case by simp
next
  case (Suc n)
  have "take (n * m + m) xs = take (n * m) xs @ take m (drop (n * m) xs)"
    by (rule take_add)
  with Suc show ?case by (simp add: add.commute)
qed

lemma upto_as_upt: "[1..int n] = map (\<lambda>k. int k + 1) [0..<n]"
proof (induction n)
  case 0
  show ?case by simp
next
  case (Suc n)
  have "[1..int (Suc n)] = [1..int n] @ [int n + 1]"
    using upto_rec2 [of 1 "int (Suc n)"] by (simp add: add.commute)
  with Suc show ?case by simp
qed

lemma getPostsPage_posts:
  assumes "getAllPosts e = Inr allPosts" and "0 < pp"
  shows "page_posts (getPostsPage e (int k + 1) pp) = take (nat pp) (drop (k * nat pp) allPosts)"
proof -
  have "nat (int k * pp) = k * nat pp" using assms(2) by (simp add: nat_mult_distrib)
  moreover have "0 \<le> int k * pp" using assms(2) by simp
  ultimately show ?thesis
    using assms slice_window [of "int k * pp" pp allPosts]
    by (simp add: getPostsPage_def page_posts_def Let_def)
qed

lemma ceiling_nonneg:
  assumes "0 < pp"
  shows "0 \<le> \<lceil>real n / real_of_int pp\<rceil>"
proof -
  have "0 \<le> real n / real_of_int pp" using assms by simp
  then show ?thesis using ceiling_mono [of 0 "real n / real_of_int pp"] by simp
qed

lemma ceiling_covers:
  assumes "0 < pp"
  shows "length (xs :: 'a list) \<le> nat \<lceil>real (length xs) / real_of_int pp\<rceil> * nat pp"
proof -
  let ?N = "\<lceil>real (length xs) / real_of_int pp\<rceil>"
  have "real (length xs) / real_of_int pp \<le> of_int ?N" by (rule le_of_int_ceiling)
  moreover have "0 < real_of_int pp" using assms by simp
  ultimately have "real (length xs) \<le> of_int ?N * real_of_int pp"
    by (metis pos_divide_le_eq)
  then have "int (length xs) \<le> ?N * pp" by (metis of_int_le_iff of_int_mult of_int_of_nat_eq)
  moreover have "0 \<le> ?N" using assms by (rule ceiling_nonneg)
  ultimately show ?thesis using assms
    by (metis nat_int nat_mono nat_mult_distrib)
qed

text \<open>
  C4. When the posts can be read and the page size is positive, the posts of the pages
  \<open>1\<close> to \<open>totalPages\<close>, one after the other, are the whole sorted sequence of posts, each
  post once and in its place; and every page, whatever its number, holds at most
  \<open>postsPerPage\<close> posts.
\<close>

theorem pages_partition:
  assumes "getAllPosts e = Inr allPosts" and "0 < pp"
  shows "concat (map (\<lambda>p. page_posts (getPostsPage e p pp))
                  [1..\<lceil>real (length allPosts) / real_of_int pp\<rceil>]) = allPosts
       \<and> (\<forall>p. \<exists>r. getPostsPage e p pp = Inr r
                \<and> totalPages r = Finite \<lceil>real (length allPosts) / real_of_int pp\<rceil>
                \<and> length (posts r) \<le> nat pp)"
proof
  let ?N = "\<lceil>real (length allPosts) / real_of_int pp\<rceil>"
  have N0: "0 \<le> ?N" using assms(2) by (rule ceiling_nonneg)
  then have "[1..?N] = map (\<lambda>k. int k + 1) [0..<nat ?N]"
    using upto_as_upt [of "nat ?N"] by simp
  then have "concat (map (\<lambda>p. page_posts (getPostsPage e p pp)) [1..?N])
      = concat (map (\<lambda>k. take (nat pp) (drop (k * nat pp) allPosts)) [0..<nat ?N])"
    using getPostsPage_posts [OF assms] by (simp add: comp_def)
  also have "\<dots> = take (nat ?N * nat pp) allPosts" by (rule concat_windows)
  also have "\<dots> = allPosts" using ceiling_covers [OF assms(2), of allPosts] by simp
  finally show "concat (map (\<lambda>p. page_posts (getPostsPage e p pp)) [1..?N]) = allPosts" .
next
  show "\<forall>p. \<exists>r. getPostsPage e p pp = Inr r
                \<and> totalPages r = Finite \<lceil>real (length allPosts) / real_of_int pp\<rceil>
                \<and> length (posts r) \<le> nat pp"
    using assms slice_length [of pp allPosts]
    by (simp add: getPostsPage_def Let_def ceil_div_def)
qed

section \<open>The content directory of ten posts, evaluated\<close>

lemmas eval_defs = S_def lits_def lit_def any_char_def dot_def is_ws_def is_line_terminator_def
  dec_max_def matchHere.simps matchAt_def search.simps replaceAll.simps splitGo.simps
  group_list_def group1_def replace_g_def replaceFirst_def split_def
  trim_def trimStart_def trimEnd_def

lemma join_posts_directory: "path_join (S ''/site'') (S ''content/posts'') = S ''/site/content/posts''"
  by (simp add: path_join_def path_normalize_def normalizeString_def normalizeStep_def S_def)

lemma directory_posts: "postsDirectory (directory files) = S ''/site/content/posts''"
  using join_posts_directory by (simp add: postsDirectory_def directory_def)

lemma join_file:
  assumes "47 \<notin> set name" and "name \<noteq> []" and "name \<noteq> S ''.''" and "name \<noteq> S ''..''"
  shows "path_join (S ''/site/content/posts'') name = S ''/site/content/posts/'' @ name"
proof -
  define P where "P = S ''/site/content/posts/'' @ name"
  have seg: "path_segments seg name = [rev seg @ name]" for seg
    using assms(1) by (induction name arbitrary: seg) auto
  have "path_segments [] P = [[], S ''site'', S ''content'', S ''posts'', name]"
    using seg [of "[]"] by (simp add: P_def S_def)
  then have n: "normalizeString P False = [S ''site'', S ''content'', S ''posts'', name]"
    using assms by (simp add: normalizeString_def normalizeStep_def S_def)
  have h: "P \<noteq> []" "hd P = 47" by (simp_all add: P_def S_def)
  have l: "last P \<noteq> 47"
    using assms(1,2) unfolding P_def by (metis last_appendR last_in_set)
  have js: "join_segments [S ''site'', S ''content'', S ''posts'', name]
              = S ''site/content/posts/'' @ name"
    by (simp add: S_def)
  have "path_normalize P = S ''/'' @ S ''site/content/posts/'' @ name"
    unfolding path_normalize_def Let_def using h l by (simp add: n js S_def)
  then have "path_normalize P = P" by (simp add: P_def S_def)
  moreover have j: "join_segments (filter (\<lambda>arg. arg \<noteq> []) [S ''/site/content/posts'', name]) = P"
    using assms(2) by (simp add: P_def S_def)
  ultimately show ?thesis unfolding path_join_def Let_def j using h(1) by (simp add: P_def [symmetric])
qed

lemma demo_readdir:
  "readdirSync demo_env (postsDirectory demo_env) = Inr (S ''README.txt'' # map fst demo_files)"
  by (simp add: demo_env_def directory_posts) (simp add: directory_def)

lemma demo_filter:
  "filter (\<lambda>fileName. endsWith fileName (S ''.md'')) (S ''README.txt'' # map fst demo_files)
     = map fst demo_files"
  by (simp add: demo_files_def endsWith_def S_def)

lemma directory_load:
  assumes "47 \<notin> set name" and "name \<noteq> []" and "name \<noteq> S ''.''" and "name \<noteq> S ''..''"
  shows "loadPost (directory files) name
     = (case map_of (map (\<lambda>(n, c). (S ''/site/content/posts/'' @ n, c)) files)
               (S ''/site/content/posts/'' @ name) of
          None \<Rightarrow> Inl IoError
        | Some c \<Rightarrow>
            (case demo_matter c of
               Inl err \<Rightarrow> Inl err
             | Inr (data, body) \<Rightarrow>
                 Inr (makePost (replaceFirst (lits ''.md'' @ [Eos]) (\<lambda>m. []) name) data body)))"
  unfolding loadPost_def Let_def directory_posts join_file [OF assms]
  by (simp add: directory_def split: option.splits)

lemma demo_load: "map_throwing (loadPost demo_env) (map fst demo_files) = Inr (rev demo_posts)"
  unfolding demo_env_def
  by (simp add: directory_load demo_files_def demo_post_def demo_posts_def demo_matter_def
      eval_defs)

lemma date_demo_post: "date (demo_post n d b) = Text (S d)"
  by (simp add: demo_post_def makePost_def)

lemma demo_less: "less_than demo_env = js_less"
  by (simp add: demo_env_def directory_def)

lemma demo_sort: "array_sort (compare_date demo_env) (rev demo_posts) = demo_posts"
  unfolding demo_posts_def
  by (simp add: array_sort_def compare_date_def demo_less date_demo_post S_def)

lemma demo_all: "getAllPosts demo_env = Inr demo_posts"
  by (simp only: getAllPosts_def demo_readdir demo_filter demo_load demo_sort sum.case)

lemma demo_length: "length demo_posts = 10"
  by (simp add: demo_posts_def)

theorem pages_partition_witness:
  "getAllPosts demo_env = Inr demo_posts \<and> (0::int) < 5
   \<and> concat (map (\<lambda>p. page_posts (getPostsPage demo_env p 5)) [1..2]) = demo_posts
   \<and> (\<forall>p. \<exists>r. getPostsPage demo_env p 5 = Inr r \<and> totalPages r = Finite 2
             \<and> length (posts r) \<le> 5)"
  using pages_partition [OF demo_all, of 5] demo_all by (simp add: demo_length)

text \<open>
  C3. When the posts can be read, the page number is at least \<open>1\<close> and the page size is
  positive, \<open>getPostsPage\<close> returns a listing whose \<open>totalPages\<close> is the ceiling of
  \<open>totalPosts / postsPerPage\<close> and whose \<open>hasNextPage\<close> says whether
  \<open>currentPage * postsPerPage < totalPosts\<close>.
\<close>

theorem getPostsPage_invariant:
  assumes "getAllPosts e = Inr allPosts" and "1 \<le> page" and "0 < postsPerPage"
  shows "\<exists>r. getPostsPage e page postsPerPage = Inr r
           \<and> totalPosts r = length allPosts \<and> currentPage r = page
           \<and> totalPages r = Finite \<lceil>real (totalPosts r) / real_of_int postsPerPage\<rceil>
           \<and> hasNextPage r = (currentPage r * postsPerPage < int (totalPosts r))"
  using assms by (simp add: getPostsPage_def Let_def ceil_div_def algebra_simps)

theorem getPostsPage_invariant_witness:
  "getAllPosts demo_env = Inr demo_posts \<and> (1::int) \<le> 2 \<and> (0::int) < 3
   \<and> (\<exists>r. getPostsPage demo_env 2 3 = Inr r
           \<and> totalPosts r = 10 \<and> currentPage r = 2
           \<and> totalPages r = Finite 4
           \<and> hasNextPage r = True)"
proof -
  have "\<lceil>(10::real) / 3\<rceil> = 4" by simp
  then show ?thesis
    using getPostsPage_invariant [OF demo_all, of 2 3] demo_all by (auto simp: demo_length)
qed

text \<open>
  C5. A page number past the last populated page, that is above \<open>totalPages\<close>, gives a
  listing without posts and without a next page, not an error. With ten posts, page \<open>3\<close> of
  size \<open>5\<close> is such a page.
\<close>

theorem getPostsPage_past_end:
  assumes "getAllPosts e = Inr allPosts" and "0 < postsPerPage"
    and "\<lceil>real (length allPosts) / real_of_int postsPerPage\<rceil> < page"
  shows "\<exists>r. getPostsPage e page postsPerPage = Inr r \<and> posts r = [] \<and> \<not> hasNextPage r"
proof -
  have "\<lceil>real (length allPosts) / real_of_int postsPerPage\<rceil> \<le> page - 1"
    using assms(3) by simp
  then have "real (length allPosts) / real_of_int postsPerPage \<le> of_int (page - 1)"
    by (simp only: ceiling_le_iff)
  moreover have "0 < real_of_int postsPerPage" using assms(2) by simp
  ultimately have "real (length allPosts) \<le> of_int (page - 1) * real_of_int postsPerPage"
    by (metis pos_divide_le_eq)
  then have le: "int (length allPosts) \<le> (page - 1) * postsPerPage"
    by (metis of_int_le_iff of_int_mult of_int_of_nat_eq)
  have "(0::int) \<le> int (length allPosts)" by simp
  with le have "0 \<le> (page - 1) * postsPerPage" by linarith
  then have "slice allPosts ((page - 1) * postsPerPage) ((page - 1) * postsPerPage + postsPerPage) = []"
    using slice_window [of "(page - 1) * postsPerPage" postsPerPage allPosts] assms(2) le
    by simp
  then show ?thesis using assms(1,2) le by (simp add: getPostsPage_def Let_def)
qed

theorem getPostsPage_past_end_witness:
  "getAllPosts demo_env = Inr demo_posts \<and> (0::int) < 5
   \<and> \<lceil>real (length demo_posts) / real_of_int 5\<rceil> < 3
   \<and> (\<exists>r. getPostsPage demo_env 3 5 = Inr r \<and> posts r = [] \<and> \<not> hasNextPage r)"
  using getPostsPage_past_end [OF demo_all, of 5 3] demo_all by (simp add: demo_length)

section \<open>The order of the posts\<close>
















section \<open>One post by its slug\<close>

lemma demo_missing:
  "readFileSync demo_env (path_join (postsDirectory demo_env) (S ''missing'' @ S ''.md''))
     = Inl IoError"
  unfolding demo_env_def directory_posts
  by (subst join_file) (simp_all add: directory_def demo_files_def S_def)

lemma demo_p0:
  "readFileSync demo_env (path_join (postsDirectory demo_env) (S ''p0'' @ S ''.md''))
     = Inr (S ''2022-07-14 Hooks'')"
  unfolding demo_env_def directory_posts
  by (subst join_file) (simp_all add: directory_def demo_files_def S_def)

lemma demo_dots:
  "readFileSync demo_env (path_join (postsDirectory demo_env) (S ''missing/../p0'' @ S ''.md''))
     = Inr (S ''2022-07-14 Hooks'')"
  unfolding demo_env_def directory_posts
  by (simp add: path_join_def path_normalize_def normalizeString_def normalizeStep_def S_def)
     (simp add: directory_def demo_files_def S_def)

lemma demo_parse:
  "matter demo_env (S ''2022-07-14 Hooks'')
     = Inr (\<lparr> fm_title = Text (S ''Hooks''), fm_date = Text (S ''2022-07-14''),
               fm_excerpt = None \<rparr>, S ''Hooks'')"
  by (simp add: demo_env_def directory_def demo_matter_def S_def)

text \<open>
  C8. For every file system, parser and slug, \<open>getPostBySlug\<close> returns, and never throws.
  When the file of the slug can be read and parsed, the result is the post built from it:
  its slug is the slug asked for, its title, date and body are those of the file, its
  excerpt is the one of the file or else the derived one, its reading time the one of the
  body. When reading the file throws, as it does when there is no such file, and when
  parsing it throws, the result is \<open>null\<close>.
\<close>

theorem getPostBySlug_never_throws:
  "(\<exists>r. getPostBySlug e sl = Inr r)
   \<and> (\<forall>fileContents data body.
          readFileSync e (path_join (postsDirectory e) (sl @ S ''.md'')) = Inr fileContents
          \<longrightarrow> matter e fileContents = Inr (data, body)
          \<longrightarrow> getPostBySlug e sl
                = Inr (Some \<lparr> slug = sl, title = fm_title data, date = fm_date data,
                               excerpt = or_else (fm_excerpt data) (generateExcerpt body),
                               content = body, readingTime = calculateReadingTime body \<rparr>))
   \<and> (\<forall>err. readFileSync e (path_join (postsDirectory e) (sl @ S ''.md'')) = Inl err
          \<longrightarrow> getPostBySlug e sl = Inr None)
   \<and> (\<forall>fileContents err.
          readFileSync e (path_join (postsDirectory e) (sl @ S ''.md'')) = Inr fileContents
          \<longrightarrow> matter e fileContents = Inl err
          \<longrightarrow> getPostBySlug e sl = Inr None)"
  by (auto simp: getPostBySlug_def makePost_def Let_def split: sum.splits)

theorem getPostBySlug_never_throws_witness:
  "readFileSync demo_env (path_join (postsDirectory demo_env) (S ''p0'' @ S ''.md''))
     = Inr (S ''2022-07-14 Hooks'')
   \<and> matter demo_env (S ''2022-07-14 Hooks'')
     = Inr (\<lparr> fm_title = Text (S ''Hooks''), fm_date = Text (S ''2022-07-14''),
               fm_excerpt = None \<rparr>, S ''Hooks'')
   \<and> getPostBySlug demo_env (S ''p0'')
     = Inr (Some \<lparr> slug = S ''p0'', title = Text (S ''Hooks''), date = Text (S ''2022-07-14''),
                    excerpt = S ''Hooks'', content = S ''Hooks'', readingTime = Finite 1 \<rparr>)
   \<and> getPostBySlug demo_env (S ''missing/../p0'')
     = Inr (Some \<lparr> slug = S ''missing/../p0'', title = Text (S ''Hooks''),
                    date = Text (S ''2022-07-14''),
                    excerpt = S ''Hooks'', content = S ''Hooks'', readingTime = Finite 1 \<rparr>)
   \<and> readFileSync demo_env (path_join (postsDirectory demo_env) (S ''missing'' @ S ''.md''))
     = Inl IoError
   \<and> getPostBySlug demo_env (S ''missing'') = Inr None
   \<and> getPostBySlug (demo_env\<lparr>matter := \<lambda>c. Inl ParseError\<rparr>) (S ''p0'') = Inr None"
proof -
  let ?data = "\<lparr> fm_title = Text (S ''Hooks''), fm_date = Text (S ''2022-07-14''),
                fm_excerpt = None \<rparr>"
  have x: "or_else None (generateExcerpt (S ''Hooks'')) = S ''Hooks''"
    by (simp add: or_else_def generateExcerpt_def eval_defs)
  have "\<lceil>(1::real) / 200\<rceil> = 1" by (rule ceiling_unique) simp_all
  then have t: "calculateReadingTime (S ''Hooks'') = Finite 1"
    by (simp add: calculateReadingTime_def ceil_div_def eval_defs)
  have p0: "getPostBySlug demo_env (S ''p0'')
     = Inr (Some \<lparr> slug = S ''p0'', title = Text (S ''Hooks''), date = Text (S ''2022-07-14''),
                    excerpt = S ''Hooks'', content = S ''Hooks'', readingTime = Finite 1 \<rparr>)"
    using getPostBySlug_never_throws [of demo_env "S ''p0''"] demo_p0 demo_parse x t by simp
  have dots: "getPostBySlug demo_env (S ''missing/../p0'')
     = Inr (Some \<lparr> slug = S ''missing/../p0'', title = Text (S ''Hooks''),
                    date = Text (S ''2022-07-14''),
                    excerpt = S ''Hooks'', content = S ''Hooks'', readingTime = Finite 1 \<rparr>)"
    using getPostBySlug_never_throws [of demo_env "S ''missing/../p0''"] demo_dots demo_parse x t
    by simp
  have missing: "getPostBySlug demo_env (S ''missing'') = Inr None"
    using getPostBySlug_never_throws [of demo_env "S ''missing''"] demo_missing by simp
  let ?e = "demo_env\<lparr>matter := \<lambda>c. Inl ParseError\<rparr>"
  have "readFileSync ?e (path_join (postsDirectory ?e) (S ''p0'' @ S ''.md''))
          = Inr (S ''2022-07-14 Hooks'')"
    using demo_p0 by (simp add: postsDirectory_def)
  moreover have "matter ?e (S ''2022-07-14 Hooks'') = Inl ParseError" by simp
  ultimately have parse: "getPostBySlug ?e (S ''p0'') = Inr None"
    using getPostBySlug_never_throws [of ?e "S ''p0''"] by simp
  show ?thesis using p0 dots missing parse demo_p0 demo_parse demo_missing by simp
qed

lemma excerpt_hello_world: "generateExcerpt (S ''Hello world.'') = S ''Hello world.''"
  by (simp add: generateExcerpt_def eval_defs)

text \<open>
  C9. When the front matter of a file gives the empty string as excerpt, or no excerpt, the
  post built from the file has the excerpt derived from its body, both when
  \<open>getPostBySlug\<close> builds it and when \<open>getAllPosts\<close> does.
\<close>

theorem empty_excerpt_is_derived:
  assumes "readFileSync e (path_join (postsDirectory e) (sl @ S ''.md'')) = Inr fileContents"
    and "matter e fileContents = Inr (data, body)"
    and "fm_excerpt data = Some [] \<or> fm_excerpt data = None"
  shows "(\<exists>p. getPostBySlug e sl = Inr (Some p) \<and> excerpt p = generateExcerpt body)
       \<and> (\<exists>p. loadPost e (sl @ S ''.md'') = Inr p \<and> excerpt p = generateExcerpt body)"
  using assms by (auto simp: getPostBySlug_def loadPost_def makePost_def or_else_def Let_def)

theorem empty_excerpt_is_derived_witness:
  "(\<exists>p. getPostBySlug
          (demo_env\<lparr>matter := \<lambda>c. Inr (\<lparr> fm_title = Text (S ''Hello''), fm_date = Text (S ''2024-01-01''),
                                         fm_excerpt = Some [] \<rparr>, S ''Hello world.'')\<rparr>)
          (S ''p0'') = Inr (Some p) \<and> excerpt p = S ''Hello world.'')"
proof -
  let ?e = "demo_env\<lparr>matter := \<lambda>c. Inr (\<lparr> fm_title = Text (S ''Hello''), fm_date = Text (S ''2024-01-01''),
                                         fm_excerpt = Some [] \<rparr>, S ''Hello world.'')\<rparr>"
  let ?data = "\<lparr> fm_title = Text (S ''Hello''), fm_date = Text (S ''2024-01-01''), fm_excerpt = Some [] \<rparr>"
  have r: "readFileSync ?e (path_join (postsDirectory ?e) (S ''p0'' @ S ''.md''))
             = Inr (S ''2022-07-14 Hooks'')"
    using demo_p0 by (simp add: postsDirectory_def)
  have m: "matter ?e (S ''2022-07-14 Hooks'') = Inr (?data, S ''Hello world.'')" by simp
  have x: "fm_excerpt ?data = Some [] \<or> fm_excerpt ?data = None" by simp
  show ?thesis
    using empty_excerpt_is_derived [OF r m x] by (simp add: excerpt_hello_world)
qed

section \<open>Reading time\<close>

lemma matchHere_greedy_star:
  "matchHere [Rep True 0 None p] s pos gs g = Some (pos + length (takeWhile p s), g)"
  by (induction s arbitrary: pos) (simp_all add: matchHere.simps dec_max_def)

lemma matchAt_greedy_plus:
  "matchAt [Rep True (Suc 0) None p] (c # t) pos =
     (if p c then Some \<lparr> m_end = Suc pos + length (takeWhile p t),
                         m_text = c # takeWhile p t, m_group = None \<rparr>
      else None)"
  by (simp add: matchAt_def matchHere.simps dec_max_def matchHere_greedy_star
      takeWhile_eq_take [symmetric])

lemma matchAt_greedy_plus_Nil: "matchAt [Rep True (Suc 0) None p] [] pos = None"
  by (simp add: matchAt_def matchHere.simps)

lemma splitGo_ws:
  "splitGo [Rep True (Suc 0) None is_ws] (c # t) pos acc =
     (if is_ws c
      then rev acc # splitGo [Rep True (Suc 0) None is_ws] (dropWhile is_ws t)
                       (Suc pos + length (takeWhile is_ws t)) []
      else splitGo [Rep True (Suc 0) None is_ws] t (Suc pos) (c # acc))"
  by (simp add: splitGo.simps matchAt_greedy_plus group_list_def dropWhile_eq_drop [symmetric])

lemma count_tokens_all_ws: "\<forall>c\<in>set w. is_ws c \<Longrightarrow> count_tokens b w = 0"
  by (induction w arbitrary: b) simp_all

lemma count_tokens_dropWhile: "count_tokens True (dropWhile is_ws s) = count_tokens True s"
  by (induction s) simp_all

lemma count_tokens_append_ws:
  "\<forall>c\<in>set w. is_ws c \<Longrightarrow> count_tokens b (s @ w) = count_tokens b s"
  by (induction s arbitrary: b) (simp_all add: count_tokens_all_ws)

lemma trimEnd_decompose: "s = trimEnd s @ rev (takeWhile is_ws (rev s))"
proof -
  have "rev (dropWhile is_ws (rev s)) @ rev (takeWhile is_ws (rev s))
          = rev (takeWhile is_ws (rev s) @ dropWhile is_ws (rev s))"
    by (simp only: rev_append)
  also have "\<dots> = rev (rev s)" by (simp only: takeWhile_dropWhile_id)
  finally show ?thesis by (simp add: trimEnd_def)
qed

lemma count_tokens_trimEnd: "count_tokens b (trimEnd s) = count_tokens b s"
proof -
  have "\<forall>c\<in>set (rev (takeWhile is_ws (rev s))). is_ws c"
    by (auto dest: set_takeWhileD)
  then have "count_tokens b (trimEnd s @ rev (takeWhile is_ws (rev s))) = count_tokens b (trimEnd s)"
    by (rule count_tokens_append_ws)
  then show ?thesis using trimEnd_decompose [of s] by simp
qed

lemma token_count_trim: "token_count (trim s) = token_count s"
  by (simp add: token_count_def trim_def trimStart_def count_tokens_trimEnd count_tokens_dropWhile)

lemma trimEnd_last: "trimEnd s \<noteq> [] \<Longrightarrow> \<not> is_ws (last (trimEnd s))"
proof -
  assume "trimEnd s \<noteq> []"
  then have ne: "dropWhile is_ws (rev s) \<noteq> []" by (simp add: trimEnd_def)
  then have "\<not> is_ws (hd (dropWhile is_ws (rev s)))" by (rule hd_dropWhile)
  then show ?thesis using ne by (simp add: trimEnd_def last_rev)
qed

lemma length_splitGo_ws:
  "s = [] \<or> \<not> is_ws (last s) \<Longrightarrow>
   length (splitGo [Rep True 1 None is_ws] s pos acc) = Suc (count_tokens False s)"
proof (induction s arbitrary: pos acc rule: length_induct)
  case (1 s)
  show ?case
  proof (cases s)
    case Nil
    then show ?thesis by (simp add: splitGo.simps)
  next
    case (Cons c t)
    show ?thesis
    proof (cases "is_ws c")
      case False
      have "t = [] \<or> \<not> is_ws (last t)" using "1.prems" Cons by (auto split: if_splits)
      moreover have "length t < length s" using Cons by simp
      ultimately have "length (splitGo [Rep True 1 None is_ws] t (Suc pos) (c # acc))
                   = Suc (count_tokens False t)"
        using "1.IH" by blast
      then show ?thesis using Cons False by (simp add: splitGo_ws)
    next
      case True
      let ?r = "dropWhile is_ws t"
      have ne: "?r \<noteq> []"
      proof
        assume "?r = []"
        then have "\<forall>x\<in>set t. is_ws x" by (simp add: dropWhile_eq_Nil_conv)
        then have "is_ws (last (c # t))" using True by (cases "t = []") auto
        then show False using "1.prems" Cons by simp
      qed
      then obtain d u where r: "?r = d # u" by (cases ?r) auto
      have d: "\<not> is_ws d" using hd_dropWhile [OF ne] r by simp
      have "t = takeWhile is_ws t @ ?r" by simp
      then have "last t = last ?r" using ne last_appendR [of ?r "takeWhile is_ws t"] by simp
      then have "last ?r = last t" by simp
      moreover have "t \<noteq> []" using ne by auto
      ultimately have "\<not> is_ws (last ?r)" using "1.prems" Cons by simp
      moreover have "length ?r < length s" using Cons length_dropWhile_le [of is_ws t]
        by simp
      ultimately have "length (splitGo [Rep True 1 None is_ws] ?r
                          (Suc pos + length (takeWhile is_ws t)) [])
                        = Suc (count_tokens False ?r)"
        using "1.IH" by blast
      moreover have "count_tokens False (c # t) = Suc (count_tokens False ?r)"
      proof -
        have "count_tokens False (c # t) = count_tokens True t" using True by simp
        also have "\<dots> = count_tokens True ?r" by (simp add: count_tokens_dropWhile)
        also have "\<dots> = Suc (count_tokens False u)" using r d by simp
        also have "count_tokens False u = count_tokens False ?r" using r d by simp
        finally show ?thesis .
      qed
      ultimately show ?thesis using Cons True by (simp add: splitGo_ws)
    qed
  qed
qed

lemma trim_all_ws:
  assumes "\<forall>c\<in>set s. is_ws c"
  shows "trim s = []"
proof -
  have "trimStart s = []" using assms by (simp add: trimStart_def)
  then show ?thesis by (simp add: trim_def trimEnd_def)
qed

lemma trim_not_all_ws:
  assumes "\<exists>c\<in>set s. \<not> is_ws c"
  shows "trim s \<noteq> [] \<and> \<not> is_ws (hd (trim s)) \<and> \<not> is_ws (last (trim s))"
proof -
  let ?a = "trimStart s"
  have a: "?a \<noteq> []" using assms by (simp add: trimStart_def dropWhile_eq_Nil_conv)
  then have ha: "\<not> is_ws (hd ?a)" unfolding trimStart_def by (rule hd_dropWhile)
  have "\<not> (\<forall>x\<in>set (rev ?a). is_ws x)" using a ha by (cases ?a) auto
  then have b: "trimEnd ?a \<noteq> []" by (simp add: trimEnd_def dropWhile_eq_Nil_conv)
  have "hd (trimEnd ?a @ rev (takeWhile is_ws (rev ?a))) = hd (trimEnd ?a)"
    using b by (rule hd_append2)
  then have "hd (trimEnd ?a) = hd ?a" using trimEnd_decompose [of ?a] by simp
  then show ?thesis using b ha trimEnd_last [OF b] by (simp add: trim_def)
qed

lemma words_of_text:
  assumes "\<exists>c\<in>set s. \<not> is_ws c"
  shows "length (split [Rep True 1 None is_ws] (trim s)) = token_count s"
proof -
  from trim_not_all_ws [OF assms] obtain d u
    where t: "trim s = d # u" and d: "\<not> is_ws d" and l: "\<not> is_ws (last (trim s))"
    by (cases "trim s") auto
  have "length (splitGo [Rep True 1 None is_ws] (trim s) 0 []) = Suc (count_tokens False (trim s))"
    using l by (intro length_splitGo_ws) simp
  moreover have "token_count (trim s) = Suc (count_tokens False (trim s))"
    using t d by (simp add: token_count_def)
  ultimately have "length (splitGo [Rep True 1 None is_ws] (trim s) 0 []) = token_count s"
    by (simp only: token_count_trim)
  moreover have "trim s \<noteq> []" using t by simp
  ultimately show ?thesis by (simp add: split_def)
qed

lemma words_of_blank:
  assumes "\<forall>c\<in>set s. is_ws c"
  shows "length (split [Rep True 1 None is_ws] (trim s)) = 1"
  using assms by (simp add: trim_all_ws split_def matchAt_greedy_plus_Nil)

lemma ceil_div_one: "ceil_div (Suc 0) 200 = Finite 1"
proof -
  have "\<lceil>(1::real) / 200\<rceil> = 1" by (rule ceiling_unique) simp_all
  then show ?thesis by (simp add: ceil_div_def)
qed

text \<open>
  C10. For the empty content and for content of whitespace only the reading time is \<open>1\<close>:
  splitting the empty string gives one token, the empty one.
\<close>

theorem blank_reading_time:
  assumes "\<forall>c\<in>set body. is_ws c"
  shows "calculateReadingTime body = Finite 1"
  using words_of_blank [OF assms] by (simp add: calculateReadingTime_def ceil_div_one)

theorem blank_reading_time_witness:
  "list_all is_ws (S '' \<newline> '') \<and> calculateReadingTime (S '' \<newline> '') = Finite 1
   \<and> calculateReadingTime [] = Finite 1"
  using blank_reading_time [of "S '' \<newline> ''"] blank_reading_time [of "[]"]
  by (simp add: S_def is_ws_def)




lemma count_tokens_pos: "\<exists>c\<in>set s. \<not> is_ws c \<Longrightarrow> 0 < count_tokens True s"
  by (induction s) auto

lemma ceiling_200_pos: "0 < n \<Longrightarrow> 1 \<le> \<lceil>real n / 200\<rceil>"
proof -
  assume "0 < n"
  then have "0 < real n / 200" by simp
  then have "0 < \<lceil>real n / 200\<rceil>" by (simp only: zero_less_ceiling)
  then show ?thesis by simp
qed

text \<open>
  C2. For a text with at least one code unit that is not whitespace, the reading time is
  the ceiling of \<open>w / 200\<close>, where \<open>w\<close> is the number of whitespace-delimited tokens of the
  text; for every other text, the empty one too, it is \<open>1\<close>; so the reading time of every
  text is at least \<open>1\<close>.
\<close>

theorem reading_time_of_tokens:
  "((\<exists>c\<in>set body. \<not> is_ws c) \<longrightarrow>
      calculateReadingTime body = Finite \<lceil>real (token_count body) / 200\<rceil>)
   \<and> ((\<forall>c\<in>set body. is_ws c) \<longrightarrow> calculateReadingTime body = Finite 1)
   \<and> (\<exists>n. calculateReadingTime body = Finite n \<and> 1 \<le> n)"
proof (cases "\<forall>c\<in>set body. is_ws c")
  case True
  then have "calculateReadingTime body = Finite 1"
    using words_of_blank by (simp add: calculateReadingTime_def ceil_div_one)
  then show ?thesis using True by simp
next
  case False
  then have some: "\<exists>c\<in>set body. \<not> is_ws c" by simp
  then have w: "length (split [Rep True 1 None is_ws] (trim body)) = token_count body"
    by (rule words_of_text)
  have "0 < token_count body" using some by (simp add: token_count_def count_tokens_pos)
  then have n: "1 \<le> \<lceil>real (token_count body) / 200\<rceil>" by (rule ceiling_200_pos)
  have t: "calculateReadingTime body = Finite \<lceil>real (token_count body) / 200\<rceil>"
    using w by (simp add: calculateReadingTime_def ceil_div_def)
  have "\<exists>n. calculateReadingTime body = Finite n \<and> 1 \<le> n" using t n by blast
  with t False show ?thesis by blast
qed

lemma hello_world_tokens: "token_count (S ''Hello world.'') = 2"
  by (simp add: token_count_def S_def is_ws_def)

theorem reading_time_of_tokens_witness:
  "(\<exists>c\<in>set (S ''Hello world.''). \<not> is_ws c)
   \<and> token_count (S ''Hello world.'') = 2
   \<and> calculateReadingTime (S ''Hello world.'') = Finite 1
   \<and> list_all is_ws (S ''  '') \<and> calculateReadingTime (S ''  '') = Finite 1"
proof -
  have some: "\<exists>c\<in>set (S ''Hello world.''). \<not> is_ws c" by (simp add: S_def is_ws_def)
  have "\<lceil>(2::real) / 200\<rceil> = 1" by (rule ceiling_unique) simp_all
  then have "calculateReadingTime (S ''Hello world.'') = Finite 1"
    using reading_time_of_tokens [of "S ''Hello world.''"] some hello_world_tokens by simp
  moreover have blank: "\<forall>c\<in>set (S ''  ''). is_ws c" by (simp add: S_def is_ws_def)
  then have "calculateReadingTime (S ''  '') = Finite 1"
    using reading_time_of_tokens [of "S ''  ''"] by blast
  ultimately show ?thesis using some hello_world_tokens blank by (simp add: list_all_iff)
qed

theorem reading_time_of_tokens_counterexample:
  "token_count [] = 0 \<and> Finite \<lceil>real (token_count []) / 200\<rceil> = Finite 0
   \<and> calculateReadingTime [] = Finite 1"
proof -
  have "\<forall>c\<in>set ([]::jsstring). is_ws c" by simp
  then have "length (split [Rep True 1 None is_ws] (trim [])) = 1" by (rule words_of_blank)
  then show ?thesis by (simp add: calculateReadingTime_def ceil_div_one token_count_def)
qed

section \<open>The matcher on literals and quantifiers\<close>









lemma startsWith_eq: "startsWith s d \<Longrightarrow> d @ drop (length d) s = s"
  by (induction s d rule: startsWith.induct) simp_all

lemma startsWith_length: "startsWith s d \<Longrightarrow> length d \<le> length s"
  by (induction s d rule: startsWith.induct) simp_all


lemma up_to_parts: "up_to p d s = Some (inner, rest) \<Longrightarrow> s = inner @ d @ rest"
proof (induction s arbitrary: inner)
  case Nil
  then show ?case by (simp split: if_splits)
next
  case (Cons c t)
  show ?case
  proof (cases "startsWith (c # t) d")
    case True
    then show ?thesis using Cons.prems startsWith_eq [OF True] by simp
  next
    case False
    then obtain inner' where "up_to p d t = Some (inner', rest)" and "inner = c # inner'"
      using Cons.prems by (auto split: if_splits option.splits)
    then show ?thesis using Cons.IH by simp
  qed
qed


lemma up_to_behind:
  assumes "up_to p d s = Some (inner, rest)"
  shows "length rest + length d \<le> length s" and "drop (length inner + length d) s = rest"
  using up_to_parts [OF assms] by simp_all



































section \<open>The excerpt\<close>











lemma excerpt_of_markup:
  "generateExcerpt (S ''# Hi **you**\<newline>\<newline>Next'') = S ''Hi you''"
  by (simp add: generateExcerpt_def eval_defs)

lemma excerpt_of_sharp: "generateExcerpt (S ''C# f'') = S ''Cf''"
  by (simp add: generateExcerpt_def eval_defs)

lemma excerpt_of_product: "generateExcerpt (S ''2 * 3 * 4'') = S ''2  3  4''"
  by (simp add: generateExcerpt_def eval_defs)

lemma excerpt_of_image: "generateExcerpt (S ''![alt](u.png) x'') = S ''!alt x''"
  by (simp add: generateExcerpt_def eval_defs)

lemma excerpt_of_rule:
  "generateExcerpt (S ''---\<newline>\<newline>Intro\<newline>\<newline>---\<newline>\<newline>Body'') = S ''Body''"
  by (simp add: generateExcerpt_def eval_defs)






section \<open>Base64\<close>












section \<open>UTF-8\<close>


































section \<open>Diagram placeholders\<close>





























end
